theory Spec2Isabelle
  imports Complex_Main "HOL-Library.Sublist"
begin

section \<open>JavaScript numbers\<close>

text \<open>
  The program computes with JavaScript numbers. They are modelled as the real numbers
  extended by the two infinities and NaN. The special values follow IEEE 754 as
  JavaScript exposes it: every comparison with NaN is false, \<open>0/0\<close>, \<open>\<infinity> - \<infinity>\<close> and
  \<open>0 * \<infinity>\<close> are NaN, a non-zero number divided by zero is an infinity. A read of
  \<open>undefined\<close> that is used as a number is NaN.

  Finite results are exact, which the program's are not: rounding to 53 bits, overflow to
  an infinity and underflow are not modelled, and the two zeros are one value (a zero
  divisor counts as \<open>+0\<close>). So the product of two large finite numbers is finite here
  and infinite in the program, and \<open>Math_exp\<close> of a large finite number likewise. The
  statements proved below are about what is compared, copied and tested, and about values
  that are exact in the program too.
\<close>

datatype number = Fin real | PInf | NInf | NaN

fun neg :: "number \<Rightarrow> number" where
  "neg (Fin a) = Fin (- a)"
| "neg PInf = NInf"
| "neg NInf = PInf"
| "neg NaN = NaN"

fun add :: "number \<Rightarrow> number \<Rightarrow> number" where
  "add (Fin a) (Fin b) = Fin (a + b)"
| "add NaN _ = NaN"
| "add _ NaN = NaN"
| "add PInf NInf = NaN"
| "add NInf PInf = NaN"
| "add PInf _ = PInf"
| "add _ PInf = PInf"
| "add NInf _ = NInf"
| "add _ NInf = NInf"

definition sub :: "number \<Rightarrow> number \<Rightarrow> number" where
  "sub a b = add a (neg b)"

fun mul :: "number \<Rightarrow> number \<Rightarrow> number" where
  "mul (Fin a) (Fin b) = Fin (a * b)"
| "mul NaN _ = NaN"
| "mul _ NaN = NaN"
| "mul (Fin a) PInf = (if a = 0 then NaN else if 0 < a then PInf else NInf)"
| "mul (Fin a) NInf = (if a = 0 then NaN else if 0 < a then NInf else PInf)"
| "mul PInf (Fin b) = (if b = 0 then NaN else if 0 < b then PInf else NInf)"
| "mul NInf (Fin b) = (if b = 0 then NaN else if 0 < b then NInf else PInf)"
| "mul PInf PInf = PInf"
| "mul NInf NInf = PInf"
| "mul PInf NInf = NInf"
| "mul NInf PInf = NInf"

fun quot :: "number \<Rightarrow> number \<Rightarrow> number" where
  "quot (Fin a) (Fin b) =
     (if b \<noteq> 0 then Fin (a / b)
      else if a = 0 then NaN else if 0 < a then PInf else NInf)"
| "quot NaN _ = NaN"
| "quot _ NaN = NaN"
| "quot (Fin a) _ = Fin 0"
| "quot PInf (Fin b) = (if 0 \<le> b then PInf else NInf)"
| "quot NInf (Fin b) = (if 0 \<le> b then NInf else PInf)"
| "quot _ _ = NaN"

fun lt :: "number \<Rightarrow> number \<Rightarrow> bool" where
  "lt (Fin a) (Fin b) = (a < b)"
| "lt (Fin a) PInf = True"
| "lt NInf (Fin b) = True"
| "lt NInf PInf = True"
| "lt _ _ = False"

fun le :: "number \<Rightarrow> number \<Rightarrow> bool" where
  "le (Fin a) (Fin b) = (a \<le> b)"
| "le NaN _ = False"
| "le _ NaN = False"
| "le NInf _ = True"
| "le _ PInf = True"
| "le _ _ = False"

definition gt :: "number \<Rightarrow> number \<Rightarrow> bool" where
  "gt a b = lt b a"

definition ge :: "number \<Rightarrow> number \<Rightarrow> bool" where
  "ge a b = le b a"

definition Math_min :: "number \<Rightarrow> number \<Rightarrow> number" where
  "Math_min a b = (if a = NaN \<or> b = NaN then NaN else if lt a b then a else b)"

definition Math_max :: "number \<Rightarrow> number \<Rightarrow> number" where
  "Math_max a b = (if a = NaN \<or> b = NaN then NaN else if lt a b then b else a)"

fun Math_sqrt :: "number \<Rightarrow> number" where
  "Math_sqrt (Fin a) = (if a < 0 then NaN else Fin (sqrt a))"
| "Math_sqrt PInf = PInf"
| "Math_sqrt _ = NaN"

fun Math_exp :: "number \<Rightarrow> number" where
  "Math_exp (Fin a) = Fin (exp a)"
| "Math_exp PInf = PInf"
| "Math_exp NInf = Fin 0"
| "Math_exp NaN = NaN"

text \<open>\<open>Math.round\<close> rounds to the nearest integer, a tie towards \<open>+\<infinity>\<close>: it is
  \<open>\<lfloor>x + 1/2\<rfloor>\<close>, which is \<^const>\<open>round\<close>.\<close>

fun Math_round :: "number \<Rightarrow> number" where
  "Math_round (Fin a) = Fin (of_int (round a))"
| "Math_round x = x"

text \<open>A read of a typed array: beyond the end it is \<open>undefined\<close>, which every use in
  this program coerces to NaN.\<close>

definition rd :: "number list \<Rightarrow> nat \<Rightarrow> number" where
  "rd xs k = (if k < length xs then xs ! k else NaN)"

text \<open>A write \<open>a[k] = v\<close> to an ordinary array: beyond the end the array grows, and the
  elements skipped are holes (\<open>None\<close>).\<close>

definition array_set :: "'a option list \<Rightarrow> nat \<Rightarrow> 'a \<Rightarrow> 'a option list" where
  "array_set xs k v =
     (if k < length xs then xs[k := Some v]
      else xs @ replicate (k - length xs) None @ [Some v])"

text \<open>The decimal rendering of a natural number, as string concatenation and template
  literals produce it for numbers below \<open>10\<^sup>2\<^sup>1\<close>; from there on the program prints
  an exponent.\<close>

fun show_nat :: "nat \<Rightarrow> string" where
  "show_nat n =
     (if n < 10 then [''0123456789'' ! n]
      else show_nat (n div 10) @ [''0123456789'' ! (n mod 10)])"

declare show_nat.simps [simp del]

section \<open>Data model\<close>

type_synonym box = "number \<times> number \<times> number \<times> number"

record FaceObject =
  rect :: box
  landmarks :: "(number \<times> number) list"
  prob :: number

record Tensor =
  dims :: "nat list"
  getData :: "number list"

record ImageData =
  width :: nat
  height :: nat
  data :: "nat list"

text \<open>What \<open>detect\<close> can throw: the \<open>Error\<close> of its own first statement, the
  \<open>TypeError\<close> of a property read on \<open>undefined\<close>, and whatever the inference engine
  throws, passed on unchanged and named here by its message.\<close>

datatype error = Error string | TypeError | Engine string

type_synonym results = "string \<rightharpoonup> Tensor"

text \<open>The inference session, as far as \<open>detect\<close> uses it: \<open>run\<close> maps the input tensor
  to the named output tensors, or throws.\<close>

type_synonym session = "Tensor \<Rightarrow> string + results"

record Retinaface =
  session :: session
  this_width :: nat
  this_height :: nat

section \<open>Anchor generation\<close>

definition generateAnchors :: "number \<Rightarrow> number list \<Rightarrow> number list \<Rightarrow> box option list" where
  "generateAnchors baseSize ratios scales =
     (let numRatio = length ratios;
          numScale = length scales;
          cx = mul baseSize (Fin 0.5);
          cy = mul baseSize (Fin 0.5)
      in fold (\<lambda>i anchors.
           let ar = ratios ! i;
               rW = Math_round (quot baseSize (Math_sqrt ar));
               rH = Math_round (mul rW ar)
           in fold (\<lambda>j anchors.
                let scale = scales ! j;
                    rsW = mul (mul rW scale) (Fin 0.5);
                    rsH = mul (mul rH scale) (Fin 0.5)
                in array_set anchors (i * numScale + j)
                     (sub cx rsW, sub cy rsH, add cx rsW, add cy rsH))
              [0..<numScale] anchors)
         [0..<numRatio] [])"

section \<open>Proposal decoding\<close>

text \<open>The body of the innermost loop, at grid cell \<open>index\<close> with the anchor template at
  \<open>(anchorX, anchorY)\<close>.\<close>

definition cell ::
  "number list \<Rightarrow> number list \<Rightarrow> number list \<Rightarrow> number \<Rightarrow> nat \<Rightarrow> nat \<Rightarrow> nat \<Rightarrow> nat \<Rightarrow>
   number \<Rightarrow> number \<Rightarrow> number \<Rightarrow> number \<Rightarrow> nat \<Rightarrow> FaceObject list \<Rightarrow> FaceObject list" where
  "cell score bbox landmark probThreshold offset scoreOffset bboxOffset landmarkOffset
        anchorW anchorH anchorX anchorY index faces =
     (let prob = rd score (scoreOffset + index)
      in if ge prob probThreshold then
           let dx = rd bbox (bboxOffset + index + offset * 0);
               dy = rd bbox (bboxOffset + index + offset * 1);
               dw = rd bbox (bboxOffset + index + offset * 2);
               dh = rd bbox (bboxOffset + index + offset * 3);
               cx = add anchorX (mul anchorW (Fin 0.5));
               cy = add anchorY (mul anchorH (Fin 0.5));
               pbCx = add cx (mul anchorW dx);
               pbCy = add cy (mul anchorH dy);
               pbW = mul anchorW (Math_exp dw);
               pbH = mul anchorH (Math_exp dh);
               x0 = sub pbCx (mul pbW (Fin 0.5));
               y0 = sub pbCy (mul pbH (Fin 0.5));
               x1 = add pbCx (mul pbW (Fin 0.5));
               y1 = add pbCy (mul pbH (Fin 0.5));
               lm = (\<lambda>k. (add cx (mul (add anchorW (Fin 1))
                                    (rd landmark (landmarkOffset + index + offset * (2 * k)))),
                           add cy (mul (add anchorH (Fin 1))
                                    (rd landmark (landmarkOffset + index + offset * (2 * k + 1))))))
           in faces @ [\<lparr>rect = (x0, y0, x1, y1),
                         landmarks = [lm 0, lm 1, lm 2, lm 3, lm 4],
                         prob = prob\<rparr>]
         else faces)"

text \<open>\<open>dims[k]\<close> of a tensor. Beyond the end it is \<open>undefined\<close>, and a loop bounded by
  \<open>undefined\<close> runs as often as one bounded by 0: never.\<close>

definition dimAt :: "nat list \<Rightarrow> nat \<Rightarrow> nat" where
  "dimAt ds k = (if k < length ds then ds ! k else 0)"

text \<open>The loop over the columns \<open>j\<close> of row \<open>i\<close>: \<open>anchorX\<close> starts at the anchor's
  own left edge and advances by \<open>featStride\<close> after every cell.\<close>

definition loop_j ::
  "number list \<Rightarrow> number list \<Rightarrow> number list \<Rightarrow> number \<Rightarrow> nat \<Rightarrow> nat \<Rightarrow> nat \<Rightarrow> nat \<Rightarrow>
   number \<Rightarrow> number \<Rightarrow> number \<Rightarrow> nat \<Rightarrow> number \<Rightarrow> nat \<Rightarrow> number \<Rightarrow>
   FaceObject list \<Rightarrow> FaceObject list" where
  "loop_j score bbox landmark probThreshold offset scoreOffset bboxOffset landmarkOffset
          anchorW anchorH featStride w a0 i anchorY faces =
     fst (fold (\<lambda>j (faces, anchorX).
            (cell score bbox landmark probThreshold offset scoreOffset bboxOffset
               landmarkOffset anchorW anchorH anchorX anchorY (i * w + j) faces,
             add anchorX featStride))
          [0..<w] (faces, a0))"

text \<open>The loop over the rows \<open>i\<close>: \<open>anchorY\<close> starts at the anchor's own top edge and
  advances by \<open>featStride\<close> after every row.\<close>

definition loop_i ::
  "number list \<Rightarrow> number list \<Rightarrow> number list \<Rightarrow> number \<Rightarrow> nat \<Rightarrow> nat \<Rightarrow> nat \<Rightarrow> nat \<Rightarrow>
   number \<Rightarrow> number \<Rightarrow> number \<Rightarrow> nat \<Rightarrow> nat \<Rightarrow> number \<Rightarrow> number \<Rightarrow>
   FaceObject list \<Rightarrow> FaceObject list" where
  "loop_i score bbox landmark probThreshold offset scoreOffset bboxOffset landmarkOffset
          anchorW anchorH featStride w h a0 a1 faces =
     fst (fold (\<lambda>i (faces, anchorY).
            (loop_j score bbox landmark probThreshold offset scoreOffset bboxOffset
               landmarkOffset anchorW anchorH featStride w a0 i anchorY faces,
             add anchorY featStride))
          [0..<h] (faces, a1))"

text \<open>The loop over the anchors \<open>q\<close>. Reading \<open>anchor[1]\<close> of a hole of the anchor
  array throws a \<open>TypeError\<close>, which ends the function.\<close>

definition generateProposals ::
  "box option list \<Rightarrow> number \<Rightarrow> Tensor \<Rightarrow> Tensor \<Rightarrow> Tensor \<Rightarrow> number \<Rightarrow> error + FaceObject list" where
  "generateProposals anchors featStride scoreT bboxT landmarkT probThreshold =
     (let bboxDims = dims bboxT;
          w = dimAt bboxDims 3;
          h = dimAt bboxDims 2;
          offset = w * h;
          score = getData scoreT;
          bbox = getData bboxT;
          landmark = getData landmarkT;
          numAnchors = length anchors
      in fold (\<lambda>q r.
           case r of Inl e \<Rightarrow> Inl e
           | Inr faces \<Rightarrow>
              (case anchors ! q of None \<Rightarrow> Inl TypeError
               | Some (a0, a1, a2, a3) \<Rightarrow>
                  let scoreOffset = (q + numAnchors) * offset;
                      bboxOffset = q * 4 * offset;
                      landmarkOffset = q * 10 * offset;
                      anchorW = sub a2 a0;
                      anchorH = sub a3 a1
                  in Inr (loop_i score bbox landmark probThreshold offset scoreOffset
                            bboxOffset landmarkOffset anchorW anchorH featStride w h a0 a1
                            faces)))
         [0..<numAnchors] (Inr []))"

definition processStride ::
  "results \<Rightarrow> FaceObject list \<Rightarrow> number \<Rightarrow> nat \<Rightarrow> number list \<Rightarrow> error + FaceObject list" where
  "processStride res faceProposals probThreshold stride scales =
     (let score = res (''face_rpn_cls_prob_reshape_stride'' @ show_nat stride);
          bbox = res (''face_rpn_bbox_pred_stride'' @ show_nat stride);
          landmark = res (''face_rpn_landmark_pred_stride'' @ show_nat stride);
          baseSize = Fin 16;
          featStride = Fin (real stride);
          anchors = generateAnchors baseSize [Fin 1] scales
      in case (score, bbox, landmark) of
           (Some scoreT, Some bboxT, Some landmarkT) \<Rightarrow>
             (case generateProposals anchors featStride scoreT bboxT landmarkT probThreshold of
                Inl e \<Rightarrow> Inl e
              | Inr faces \<Rightarrow> Inr (faceProposals @ faces))
         | _ \<Rightarrow> Inl TypeError)"

section \<open>Suppression\<close>

definition area :: "FaceObject \<Rightarrow> number" where
  "area obj = (case rect obj of (x0, y0, x1, y1) \<Rightarrow> mul (sub x1 x0) (sub y1 y0))"

definition interArea :: "FaceObject \<Rightarrow> FaceObject \<Rightarrow> number" where
  "interArea a b =
     (case rect a of (a0, a1, a2, a3) \<Rightarrow> case rect b of (b0, b1, b2, b3) \<Rightarrow>
        mul (Math_max (Fin 0) (sub (Math_min a2 b2) (Math_max a0 b0)))
            (Math_max (Fin 0) (sub (Math_min a3 b3) (Math_max a1 b1))))"

definition nmsSortedBboxes :: "FaceObject list \<Rightarrow> number \<Rightarrow> nat list" where
  "nmsSortedBboxes faceObjects nmsThreshold =
     (let n = length faceObjects;
          areas = map area faceObjects
      in fold (\<lambda>i picked.
           let a = faceObjects ! i;
               keep = fold (\<lambda>j keep.
                        let b = faceObjects ! j;
                            inter = interArea a b;
                            unionArea = sub (add (areas ! i) (areas ! j)) inter
                        in if gt (quot inter unionArea) nmsThreshold then False else keep)
                      picked True
           in if keep then picked @ [i] else picked)
         [0..<n] [])"

section \<open>Detection\<close>

text \<open>\<open>Array.prototype.sort\<close> with a comparator is a stable sort; a comparator result of
  NaN counts as 0. It is modelled as a stable insertion sort.\<close>

fun insert_by :: "('a \<Rightarrow> 'a \<Rightarrow> number) \<Rightarrow> 'a \<Rightarrow> 'a list \<Rightarrow> 'a list" where
  "insert_by cmp x [] = [x]"
| "insert_by cmp x (y # ys) =
     (if gt (cmp x y) (Fin 0) then y # insert_by cmp x ys else x # y # ys)"

fun Array_sort :: "('a \<Rightarrow> 'a \<Rightarrow> number) \<Rightarrow> 'a list \<Rightarrow> 'a list" where
  "Array_sort cmp [] = []"
| "Array_sort cmp (x # xs) = insert_by cmp x (Array_sort cmp xs)"

text \<open>The pixel buffer as the planes R, G, B of a \<open>Float32Array\<close>: a write beyond the
  end of a typed array is ignored, a read beyond the end is \<open>undefined\<close>, stored as NaN.\<close>

definition pixel :: "nat list \<Rightarrow> nat \<Rightarrow> number" where
  "pixel bytes k = (if k < length bytes then Fin (real (bytes ! k)) else NaN)"

definition nchw :: "nat \<Rightarrow> nat \<Rightarrow> ImageData \<Rightarrow> number list" where
  "nchw w h imageData =
     (let len = w * h
      in fold (\<lambda>i d.
           ((d[i := pixel (data imageData) (i * 4)])
              [i + len := pixel (data imageData) (i * 4 + 1)])
              [i + len * 2 := pixel (data imageData) (i * 4 + 2)])
         [0..<len] (replicate (length (data imageData) * 3 div 4) (Fin 0)))"

text \<open>The function mapped over the picked indices at the end of \<open>detect\<close>.\<close>

definition rescale :: "nat \<Rightarrow> nat \<Rightarrow> number \<Rightarrow> FaceObject \<Rightarrow> FaceObject" where
  "rescale w h scale obj =
     (case rect obj of (r0, r1, r2, r3) \<Rightarrow>
        let x0 = quot (Math_max (Math_min r0 (sub (Fin (real w)) (Fin 1))) (Fin 0)) scale;
            y0 = quot (Math_max (Math_min r1 (sub (Fin (real h)) (Fin 1))) (Fin 0)) scale;
            x1 = quot (Math_max (Math_min r2 (sub (Fin (real w)) (Fin 1))) (Fin 0)) scale;
            y1 = quot (Math_max (Math_min r3 (sub (Fin (real h)) (Fin 1))) (Fin 0)) scale
        in \<lparr>rect = (x0, y0, x1, y1),
            landmarks = map (\<lambda>landmark. (quot (fst landmark) scale, quot (snd landmark) scale))
                          (landmarks obj),
            prob = prob obj\<rparr>)"

text \<open>\<open>detect\<close> returns its result, or the error it throws, together with the list of
  the tensors it has handed to \<open>session.run\<close>: the calls of the inference engine are the
  only effect of \<open>detect\<close> outside its own local values.

  The constructor of the input tensor, which is the inference library's, refuses a buffer
  whose length is not the product of the dimensions. That test is left out: an
  \<open>ImageData\<close> holds \<open>4 * width * height\<close> bytes, so that past the size test of
  \<open>detect\<close> the buffer has \<open>3 * width * height\<close> entries.\<close>

definition detect ::
  "Retinaface \<Rightarrow> ImageData \<Rightarrow> number \<Rightarrow> number \<Rightarrow> number \<Rightarrow>
   (error + FaceObject list) \<times> Tensor list" where
  "detect this imageData scale probThreshold nmsThreshold =
     (if width imageData \<noteq> this_width this \<or> height imageData \<noteq> this_height this then
        (Inl (Error (''image should be '' @ show_nat (this_width this) @ ''x''
                       @ show_nat (this_height this))), [])
      else
        let input = \<lparr>dims = [1, 3, this_height this, this_width this],
                     getData = nchw (this_width this) (this_height this) imageData\<rparr>
        in case session this input of
             Inl e \<Rightarrow> (Inl (Engine e), [input])
           | Inr res \<Rightarrow>
              (case processStride res [] probThreshold 32 [Fin 32, Fin 16] of
                 Inl e \<Rightarrow> (Inl e, [input])
               | Inr fp32 \<Rightarrow>
              (case processStride res fp32 probThreshold 16 [Fin 8, Fin 4] of
                 Inl e \<Rightarrow> (Inl e, [input])
               | Inr fp16 \<Rightarrow>
              (case processStride res fp16 probThreshold 8 [Fin 2, Fin 1] of
                 Inl e \<Rightarrow> (Inl e, [input])
               | Inr fp8 \<Rightarrow>
                  let faceProposals = Array_sort (\<lambda>a b. sub (prob b) (prob a)) fp8;
                      picked = nmsSortedBboxes faceProposals nmsThreshold
                  in (Inr (map (\<lambda>i. rescale (this_width this) (this_height this) scale
                                       (faceProposals ! i)) picked),
                      [input])))))"

section \<open>Notions used in the statements\<close>

text \<open>The quotient that \<open>nmsSortedBboxes\<close> compares with the threshold, for two
  candidates: intersection area over union area, neither guarded against a zero divisor.\<close>

definition iou :: "FaceObject \<Rightarrow> FaceObject \<Rightarrow> number" where
  "iou a b = (let inter = interArea a b in quot inter (sub (add (area a) (area b)) inter))"

text \<open>The value of \<open>picked\<close> after the suppression loop has handled the indices below
  \<open>k\<close>.\<close>

definition picked_upto :: "FaceObject list \<Rightarrow> number \<Rightarrow> nat \<Rightarrow> nat list" where
  "picked_upto fs thr k =
     fold (\<lambda>i picked. if \<forall>j\<in>set picked. \<not> gt (iou (fs ! i) (fs ! j)) thr
                       then picked @ [i] else picked) [0..<k] []"

text \<open>A rectangle is well formed when its width and height are finite and not negative;
  an area of zero is allowed.\<close>

fun finite_number :: "number \<Rightarrow> bool" where
  "finite_number (Fin a) = True"
| "finite_number _ = False"

definition wellFormed :: "FaceObject \<Rightarrow> bool" where
  "wellFormed obj =
     (case rect obj of (x0, y0, x1, y1) \<Rightarrow>
        finite_number (sub x1 x0) \<and> finite_number (sub y1 y0) \<and>
        ge (sub x1 x0) (Fin 0) \<and> ge (sub y1 y0) (Fin 0))"

text \<open>A candidate with finite corners, for concrete inputs.\<close>

definition face :: "real \<Rightarrow> real \<Rightarrow> real \<Rightarrow> real \<Rightarrow> FaceObject" where
  "face x0 y0 x1 y1 = \<lparr>rect = (Fin x0, Fin y0, Fin x1, Fin y1), landmarks = [], prob = Fin 1\<rparr>"

text \<open>The anchor of the specification for one ratio and one scale: the box about the
  centre \<open>(baseSize/2, baseSize/2)\<close> with half extents \<open>rW * s / 2\<close> and
  \<open>rH * s / 2\<close>, in the specification's words.\<close>

definition anchor_spec :: "number \<Rightarrow> number \<Rightarrow> number \<Rightarrow> box" where
  "anchor_spec baseSize ar s =
     (let cx = quot baseSize (Fin 2);
          cy = quot baseSize (Fin 2);
          rW = Math_round (quot baseSize (Math_sqrt ar));
          rH = Math_round (mul rW ar);
          rsW = quot (mul rW s) (Fin 2);
          rsH = quot (mul rH s) (Fin 2)
      in (sub cx rsW, sub cy rsH, add cx rsW, add cy rsH))"

text \<open>A two-level array in row-major order, without holes: \<open>r\<close> rows of \<open>S\<close> entries.\<close>

definition blocks :: "(nat \<Rightarrow> nat \<Rightarrow> 'a) \<Rightarrow> nat \<Rightarrow> nat \<Rightarrow> 'a option list" where
  "blocks g S r = concat (map (\<lambda>i. map (\<lambda>j. Some (g i j)) [0..<S]) [0..<r])"

text \<open>A tensor with finite entries, for concrete inputs.\<close>

definition tensor :: "nat list \<Rightarrow> real list \<Rightarrow> Tensor" where
  "tensor ds xs = \<lparr>dims = ds, getData = map Fin xs\<rparr>"

text \<open>Clamping to an interval, in the specification's words: a value below the interval
  becomes its lower end, a value above it its upper end.\<close>

definition clamp :: "number \<Rightarrow> number \<Rightarrow> number \<Rightarrow> number" where
  "clamp x lo hi = (if lt x lo then lo else if gt x hi then hi else x)"

text \<open>All the values of the three score tensors among the outputs of the engine.\<close>

definition score_values :: "results \<Rightarrow> number list" where
  "score_values res =
     concat (map (\<lambda>stride. case res (''face_rpn_cls_prob_reshape_stride'' @ show_nat stride) of
                              None \<Rightarrow> [] | Some scoreT \<Rightarrow> getData scoreT)
                 [32, 16, 8])"

text \<open>A concrete network for inputs of 32 x 32 pixels, with feature maps of 1 x 1, 2 x 2
  and 4 x 4 cells and two anchors per cell. Its outputs are zero but for one face score
  \<open>p\<close>, of the first anchor at stride 32.\<close>

definition zeros :: "nat list \<Rightarrow> nat \<Rightarrow> Tensor" where
  "zeros ds n = \<lparr>dims = ds, getData = replicate n (Fin 0)\<rparr>"

definition outputs :: "real \<Rightarrow> results" where
  "outputs p =
     [''face_rpn_cls_prob_reshape_stride32'' \<mapsto> tensor [1, 4, 1, 1] [0, 0, p, 0],
      ''face_rpn_bbox_pred_stride32'' \<mapsto> zeros [1, 8, 1, 1] 8,
      ''face_rpn_landmark_pred_stride32'' \<mapsto> zeros [1, 20, 1, 1] 20,
      ''face_rpn_cls_prob_reshape_stride16'' \<mapsto> zeros [1, 4, 2, 2] 16,
      ''face_rpn_bbox_pred_stride16'' \<mapsto> zeros [1, 8, 2, 2] 32,
      ''face_rpn_landmark_pred_stride16'' \<mapsto> zeros [1, 20, 2, 2] 80,
      ''face_rpn_cls_prob_reshape_stride8'' \<mapsto> zeros [1, 4, 4, 4] 64,
      ''face_rpn_bbox_pred_stride8'' \<mapsto> zeros [1, 8, 4, 4] 128,
      ''face_rpn_landmark_pred_stride8'' \<mapsto> zeros [1, 20, 4, 4] 320]"

definition engine :: "real \<Rightarrow> session" where
  "engine p input = Inr (outputs p)"

definition net32 :: "real \<Rightarrow> Retinaface" where
  "net32 p = \<lparr>session = engine p, this_width = 32, this_height = 32\<rparr>"

text \<open>A black, transparent image of \<open>w\<close> x \<open>h\<close> pixels.\<close>

definition blank_image :: "nat \<Rightarrow> nat \<Rightarrow> ImageData" where
  "blank_image w h = \<lparr>width = w, height = h, data = replicate (4 * w * h) 0\<rparr>"

section \<open>Facts about numbers\<close>

lemma le_NaN [simp]: "\<not> le x NaN" "\<not> le NaN x"
  by (cases x; simp)+

lemma lt_NaN [simp]: "\<not> lt x NaN" "\<not> lt NaN x"
  by (cases x; simp)+

lemma add_NaN [simp]: "add x NaN = NaN"
  by (cases x) simp_all

lemma mul_NaN [simp]: "mul x NaN = NaN"
  by (cases x) simp_all

lemma quot_NaN [simp]: "quot x NaN = NaN"
  by (cases x) simp_all

lemma sub_NaN [simp]: "sub x NaN = NaN" "sub NaN x = NaN"
  by (simp_all add: sub_def)

lemma sub_Fin [simp]: "sub (Fin a) (Fin b) = Fin (a - b)"
  by (simp add: sub_def)

lemma Math_min_Fin [simp]: "Math_min (Fin a) (Fin b) = Fin (min a b)"
  by (auto simp: Math_min_def)

lemma Math_max_Fin [simp]: "Math_max (Fin a) (Fin b) = Fin (max a b)"
  by (auto simp: Math_max_def)

lemma quot_one [simp]: "quot x (Fin 1) = x"
  by (cases x) simp_all

lemma sub_zero [simp]: "sub x (Fin 0) = x"
  by (cases x) (simp_all add: sub_def)

lemma add_zero [simp]: "add (Fin 0) x = x"
  by (cases x) simp_all

lemma mul_half: "mul x (Fin 0.5) = quot x (Fin 2)"
  by (cases x) auto

lemma Math_min_commute: "Math_min a b = Math_min b a"
  by (cases a; cases b) (auto simp: Math_min_def)

lemma Math_max_commute: "Math_max a b = Math_max b a"
  by (cases a; cases b) (auto simp: Math_max_def)

lemma add_commute: "add a b = add b a"
  by (cases a; cases b) auto

lemma not_gt_le: "\<not> gt x t \<Longrightarrow> x \<noteq> NaN \<Longrightarrow> t \<noteq> NaN \<Longrightarrow> le x t"
  by (cases x; cases t) (auto simp: gt_def)

lemma ge_trans_lt: "lt t1 t2 \<Longrightarrow> ge p t2 \<Longrightarrow> ge p t1"
  by (cases t1; cases t2; cases p) (auto simp: ge_def)

lemma sub_Fin_D: "sub a b = Fin c \<Longrightarrow> \<exists>x y. a = Fin x \<and> b = Fin y \<and> c = x - y"
  by (cases a; cases b) (auto simp: sub_def)

lemma mul_Fin_D: "mul a b = Fin c \<Longrightarrow> \<exists>x y. a = Fin x \<and> b = Fin y \<and> c = x * y"
  by (cases a; cases b) (auto split: if_splits)

lemma quot_zero_not_gt: "ge thr (Fin 0) \<Longrightarrow> \<not> gt (quot (Fin 0) u) thr"
  by (cases u; cases thr) (auto simp: gt_def ge_def)

section \<open>Facts about loops\<close>

lemma fold_simulation:
  assumes "h s = s'" and "\<And>x s. x \<in> set xs \<Longrightarrow> g x (h s) = h (f x s)"
  shows "fold g xs s' = h (fold f xs s)"
  using assms by (induction xs arbitrary: s s') auto

lemma fold_invariant:
  assumes "I s" and "\<And>x s. x \<in> set xs \<Longrightarrow> I s \<Longrightarrow> I (f x s)"
  shows "I (fold f xs s)"
  using assms by (induction xs arbitrary: s) auto

lemma keep_fold:
  "fold (\<lambda>j keep. if P j then False else keep) picked k0 = (k0 \<and> (\<forall>j\<in>set picked. \<not> P j))"
  by (induction picked arbitrary: k0) auto

section \<open>Suppression: the picked indices\<close>

lemma picked_upto_0: "picked_upto fs thr 0 = []"
  by (simp add: picked_upto_def)

lemma picked_upto_Suc:
  "picked_upto fs thr (Suc k) =
     (if \<forall>j\<in>set (picked_upto fs thr k). \<not> gt (iou (fs ! k) (fs ! j)) thr
      then picked_upto fs thr k @ [k] else picked_upto fs thr k)"
  by (simp add: picked_upto_def)

lemma picked_upto_bound: "j \<in> set (picked_upto fs thr k) \<Longrightarrow> j < k"
  by (induction k) (auto simp: picked_upto_0 picked_upto_Suc split: if_splits)

lemma nms_fold_eq:
  "k \<le> length fs \<Longrightarrow>
   fold (\<lambda>i picked.
           let a = fs ! i;
               keep = fold (\<lambda>j keep.
                        let b = fs ! j;
                            inter = interArea a b;
                            unionArea = sub (add (map area fs ! i) (map area fs ! j)) inter
                        in if gt (quot inter unionArea) thr then False else keep)
                      picked True
           in if keep then picked @ [i] else picked)
         [0..<k] [] = picked_upto fs thr k"
proof (induction k)
  case 0
  then show ?case by (simp add: picked_upto_0)
next
  case (Suc k)
  have "\<And>j. j \<in> set (picked_upto fs thr k) \<Longrightarrow> j < length fs"
    using picked_upto_bound Suc.prems by fastforce
  then have "(\<forall>j\<in>set (picked_upto fs thr k).
               \<not> gt (quot (interArea (fs ! k) (fs ! j))
                      (sub (add (map area fs ! k) (map area fs ! j)) (interArea (fs ! k) (fs ! j)))) thr)
           = (\<forall>j\<in>set (picked_upto fs thr k). \<not> gt (iou (fs ! k) (fs ! j)) thr)"
    using Suc.prems by (simp add: iou_def Let_def)
  with Suc show ?case
    by (simp add: picked_upto_Suc Let_def keep_fold)
qed

lemma nms_picked_upto: "nmsSortedBboxes fs thr = picked_upto fs thr (length fs)"
  unfolding nmsSortedBboxes_def Let_def using nms_fold_eq [of "length fs" fs thr]
  by (simp add: Let_def)

lemma picked_upto_filter:
  "k \<le> m \<Longrightarrow> filter (\<lambda>j. j < k) (picked_upto fs thr m) = picked_upto fs thr k"
proof (induction m)
  case 0
  then show ?case by (simp add: picked_upto_0)
next
  case (Suc m)
  show ?case
  proof (cases "k = Suc m")
    case True
    then show ?thesis
      using picked_upto_bound [of _ fs thr "Suc m"] by (simp add: filter_id_conv)
  next
    case False
    with Suc show ?thesis by (simp add: picked_upto_Suc)
  qed
qed

lemma picked_upto_mem:
  assumes "i < m"
  shows "i \<in> set (picked_upto fs thr m) \<longleftrightarrow>
         (\<forall>j\<in>set (picked_upto fs thr i). \<not> gt (iou (fs ! i) (fs ! j)) thr)"
proof -
  have "i \<in> set (picked_upto fs thr m) \<longleftrightarrow> i \<in> set (filter (\<lambda>j. j < Suc i) (picked_upto fs thr m))"
    by simp
  also have "\<dots> \<longleftrightarrow> i \<in> set (picked_upto fs thr (Suc i))"
    using assms picked_upto_filter [of "Suc i" m fs thr] by simp
  also have "\<dots> \<longleftrightarrow> (\<forall>j\<in>set (picked_upto fs thr i). \<not> gt (iou (fs ! i) (fs ! j)) thr)"
    using picked_upto_bound [of i fs thr i] by (auto simp: picked_upto_Suc)
  finally show ?thesis .
qed

lemma picked_upto_earlier:
  assumes "j \<in> set (picked_upto fs thr m)" "j < i" "i \<le> m"
  shows "j \<in> set (picked_upto fs thr i)"
proof -
  have "j \<in> set (filter (\<lambda>j. j < i) (picked_upto fs thr m))" using assms by simp
  then show ?thesis using picked_upto_filter [of i m fs thr] assms by simp
qed

lemma picked_upto_pair:
  assumes "i \<in> set (picked_upto fs thr m)" "j \<in> set (picked_upto fs thr m)" "j < i"
  shows "\<not> gt (iou (fs ! i) (fs ! j)) thr"
proof -
  have im: "i < m" using assms(1) by (rule picked_upto_bound)
  then have "j \<in> set (picked_upto fs thr i)"
    using picked_upto_earlier [OF assms(2) assms(3)] by simp
  then show ?thesis using assms(1) picked_upto_mem [OF im] by blast
qed

lemma interArea_commute: "interArea a b = interArea b a"
  by (simp add: interArea_def Math_min_commute [of "fst (snd (snd (rect a)))"] split: prod.splits)
    (metis Math_min_commute Math_max_commute)

lemma iou_commute: "iou a b = iou b a"
  by (simp add: iou_def Let_def interArea_commute [of a b] add_commute [of "area a"])

lemma picked_upto_sorted: "sorted_wrt (<) (picked_upto fs thr k)"
  by (induction k) (auto simp: picked_upto_0 picked_upto_Suc sorted_wrt_append dest: picked_upto_bound)

lemma picked_upto_all:
  "(\<And>k l. k < m \<Longrightarrow> l < k \<Longrightarrow> \<not> gt (iou (gs ! k) (gs ! l)) thr) \<Longrightarrow> picked_upto gs thr m = [0..<m]"
  by (induction m) (auto simp: picked_upto_0 picked_upto_Suc)


text \<open>
  Claim C1, as amended. The loop keeps a candidate unless its quotient with an already
  picked one is greater than the threshold, and a comparison with NaN is false. So for two
  distinct picked candidates of any list the quotient is not greater than the threshold,
  and it is at most the threshold whenever the quotient and the threshold are numbers.
  This rests on the tests the loop makes and on the quotient being the same for a pair in
  either order, not on the values that the arithmetic yields.
\<close>

theorem nms_no_overlap:
  assumes "i \<in> set (nmsSortedBboxes fs thr)" and "j \<in> set (nmsSortedBboxes fs thr)"
    and "i \<noteq> j"
  shows "\<not> gt (iou (fs ! i) (fs ! j)) thr \<and>
         (iou (fs ! i) (fs ! j) \<noteq> NaN \<and> thr \<noteq> NaN \<longrightarrow> le (iou (fs ! i) (fs ! j)) thr)"
proof -
  have n: "\<not> gt (iou (fs ! i) (fs ! j)) thr"
  proof (cases "j < i")
    case True
    then show ?thesis using assms(1,2) picked_upto_pair by (simp add: nms_picked_upto)
  next
    case False
    then have "i < j" using assms(3) by simp
    then have "\<not> gt (iou (fs ! j) (fs ! i)) thr"
      using assms(1,2) picked_upto_pair by (simp add: nms_picked_upto)
    then show ?thesis by (simp add: iou_commute)
  qed
  then show ?thesis by (simp add: not_gt_le)
qed

lemma nms2: "nmsSortedBboxes [a, b] thr = (if gt (iou b a) thr then [0] else [0, 1])"
  by (simp add: nms_picked_upto picked_upto_def iou_def numeral_2_eq_2)

text \<open>
  Claim C1 as stated fails for rectangles of area zero, which are well formed: two equal
  points are both picked, and their quotient \<open>0/0\<close> is NaN, which is not at most 0.5.
\<close>

theorem nms_no_overlap_counterexample:
  "wellFormed (face 0 0 0 0) \<and>
   nmsSortedBboxes [face 0 0 0 0, face 0 0 0 0] (Fin 0.5) = [0, 1] \<and>
   \<not> le (iou ([face 0 0 0 0, face 0 0 0 0] ! 0) ([face 0 0 0 0, face 0 0 0 0] ! 1)) (Fin 0.5)"
  by (simp add: nms2 wellFormed_def face_def iou_def interArea_def area_def sub_def ge_def gt_def
      Math_min_def Math_max_def)

theorem nms_no_overlap_witness:
  "nmsSortedBboxes [face 0 0 2 2, face 1 0 4 2] (Fin 0.5) = [0, 1] \<and>
   iou ([face 0 0 2 2, face 1 0 4 2] ! 0) ([face 0 0 2 2, face 1 0 4 2] ! 1) = Fin 0.25 \<and>
   le (iou ([face 0 0 2 2, face 1 0 4 2] ! 0) ([face 0 0 2 2, face 1 0 4 2] ! 1)) (Fin 0.5)"
proof -
  have p: "nmsSortedBboxes [face 0 0 2 2, face 1 0 4 2] (Fin 0.5) = [0, 1]"
    by (simp add: nms2 face_def iou_def interArea_def area_def gt_def)
  have m: "0 \<in> set (nmsSortedBboxes [face 0 0 2 2, face 1 0 4 2] (Fin 0.5))"
    "1 \<in> set (nmsSortedBboxes [face 0 0 2 2, face 1 0 4 2] (Fin 0.5))"
    using p by simp_all
  have q: "iou ([face 0 0 2 2, face 1 0 4 2] ! 0) ([face 0 0 2 2, face 1 0 4 2] ! 1) = Fin 0.25"
    by (simp add: face_def iou_def interArea_def area_def)
  have "le (iou ([face 0 0 2 2, face 1 0 4 2] ! 0) ([face 0 0 2 2, face 1 0 4 2] ! 1)) (Fin 0.5)"
    using nms_no_overlap [OF m] q by simp
  with p q show ?thesis by simp
qed

text \<open>
  The condition on the threshold is needed: with the threshold NaN nothing is ever
  suppressed, whatever the overlap.
\<close>

lemma nms_NaN_threshold:
  "nmsSortedBboxes [face 0 0 2 2, face 0 0 2 2] NaN = [0, 1] \<and>
   iou (face 0 0 2 2) (face 0 0 2 2) = Fin 1 \<and> \<not> le (Fin 1) NaN"
  by (simp add: nms2 face_def iou_def interArea_def area_def gt_def)

text \<open>
  Claim C9. The candidates picked from a list, suppressed again with the same threshold,
  are all picked: the second run returns every index of its input.
\<close>

theorem nms_idempotent:
  "nmsSortedBboxes (map (\<lambda>i. fs ! i) (nmsSortedBboxes fs thr)) thr
     = [0..<length (nmsSortedBboxes fs thr)]"
proof -
  define P where "P = picked_upto fs thr (length fs)"
  have "picked_upto (map (\<lambda>i. fs ! i) P) thr (length P) = [0..<length P]"
  proof (rule picked_upto_all)
    fix k l assume kl: "k < length P" "l < k"
    have "sorted_wrt (<) P" unfolding P_def by (rule picked_upto_sorted)
    with kl have "P ! l < P ! k" by (simp add: sorted_wrt_nth_less)
    moreover have "P ! k \<in> set P" "P ! l \<in> set P" using kl by simp_all
    ultimately have "\<not> gt (iou (fs ! (P ! k)) (fs ! (P ! l))) thr"
      unfolding P_def by (intro picked_upto_pair)
    then show "\<not> gt (iou (map (\<lambda>i. fs ! i) P ! k) (map (\<lambda>i. fs ! i) P ! l)) thr"
      using kl by simp
  qed
  then show ?thesis by (simp add: nms_picked_upto P_def)
qed

lemma zero_area_self_inter:
  assumes "area z = Fin 0"
  shows "interArea z z = Fin 0"
proof -
  obtain p0 p1 p2 p3 where r: "rect z = (p0, p1, p2, p3)" by (cases "rect z") auto
  from assms r have "mul (sub p2 p0) (sub p3 p1) = Fin 0" by (simp add: area_def)
  from mul_Fin_D [OF this] obtain w h
    where w: "sub p2 p0 = Fin w" and h: "sub p3 p1 = Fin h" and wh: "w * h = 0" by auto
  from sub_Fin_D [OF w] sub_Fin_D [OF h] obtain x0 x1 y0 y1
    where p: "p0 = Fin x0" "p2 = Fin x1" "p1 = Fin y0" "p3 = Fin y1"
      and e: "w = x1 - x0" "h = y1 - y0" by blast
  from wh e have "max 0 (x1 - x0) * max 0 (y1 - y0) = 0" by auto
  then show ?thesis
    by (simp add: interArea_def r p Math_min_Fin Math_max_Fin sub_Fin)
qed

text \<open>
  Claim C10. With a threshold that is not negative, a candidate of area zero whose
  intersection with every candidate picked before it is zero is picked. A rectangle of area
  zero has the quotient \<open>0/0\<close>, NaN, with itself, so any number of copies of it are all
  picked.
\<close>

theorem nms_zero_area_picked:
  assumes "ge thr (Fin 0)"
  shows "(\<forall>i < length fs.
            area (fs ! i) = Fin 0 \<and>
            (\<forall>j \<in> set (nmsSortedBboxes fs thr). j < i \<longrightarrow> interArea (fs ! i) (fs ! j) = Fin 0)
            \<longrightarrow> i \<in> set (nmsSortedBboxes fs thr))
       \<and> (area z = Fin 0 \<longrightarrow>
            iou z z = NaN \<and> nmsSortedBboxes (replicate n z) thr = [0..<n])"
proof (intro conjI allI impI)
  fix i assume i: "i < length fs"
    and h: "area (fs ! i) = Fin 0 \<and>
            (\<forall>j \<in> set (nmsSortedBboxes fs thr). j < i \<longrightarrow> interArea (fs ! i) (fs ! j) = Fin 0)"
  have "\<not> gt (iou (fs ! i) (fs ! j)) thr" if "j \<in> set (picked_upto fs thr i)" for j
  proof -
    have "j < i" using that by (rule picked_upto_bound)
    moreover have "j \<in> set (nmsSortedBboxes fs thr)"
      using that picked_upto_filter [of i "length fs" fs thr] i
      by (metis filter_is_subset less_imp_le_nat nms_picked_upto subsetD)
    ultimately have "interArea (fs ! i) (fs ! j) = Fin 0" using h by blast
    then show ?thesis
      using h assms by (simp add: iou_def Let_def sub_zero add_zero quot_zero_not_gt)
  qed
  then show "i \<in> set (nmsSortedBboxes fs thr)"
    using i by (simp add: nms_picked_upto picked_upto_mem)
next
  assume z: "area z = Fin 0"
  then show "iou z z = NaN"
    by (simp add: iou_def Let_def zero_area_self_inter sub_def)
  then have "picked_upto (replicate n z) thr n = [0..<n]"
    by (intro picked_upto_all) (simp add: gt_def)
  then show "nmsSortedBboxes (replicate n z) thr = [0..<n]"
    by (simp add: nms_picked_upto)
qed

theorem nms_zero_area_picked_witness:
  "ge (Fin 0.5) (Fin 0)
   \<and> 1 < length [face 0 0 4 4, face 1 1 1 3, face 1 1 1 3]
   \<and> area ([face 0 0 4 4, face 1 1 1 3, face 1 1 1 3] ! 1) = Fin 0
   \<and> 1 \<in> set (nmsSortedBboxes [face 0 0 4 4, face 1 1 1 3, face 1 1 1 3] (Fin 0.5))
   \<and> area (face 1 1 1 3) = Fin 0
   \<and> nmsSortedBboxes (replicate 3 (face 1 1 1 3)) (Fin 0.5) = [0..<3]"
proof -
  have t: "ge (Fin 0.5) (Fin 0)" by (simp add: ge_def)
  have a: "area (face 1 1 1 3) = Fin 0" by (simp add: area_def face_def sub_def)
  have i0: "interArea (face 1 1 1 3) (face 0 0 4 4) = Fin 0"
    by (simp add: interArea_def face_def sub_def Math_min_def Math_max_def)
  have m: "\<And>j. j < (1::nat) \<Longrightarrow> j = 0" by simp
  note th = nms_zero_area_picked [OF t, of "[face 0 0 4 4, face 1 1 1 3, face 1 1 1 3]" "face 1 1 1 3" 3]
  from th have "1 \<in> set (nmsSortedBboxes [face 0 0 4 4, face 1 1 1 3, face 1 1 1 3] (Fin 0.5))"
    using a i0 by (auto dest: m)
  moreover from th a have "nmsSortedBboxes (replicate 3 (face 1 1 1 3)) (Fin 0.5) = [0..<3]"
    by blast
  ultimately show ?thesis using t a by simp
qed

section \<open>Anchor generation: the array written\<close>

lemma inner_fold:
  "length acc = b \<Longrightarrow>
   fold (\<lambda>j anchors. array_set anchors (b + j) (f j)) [0..<n] acc
     = acc @ map (\<lambda>j. Some (f j)) [0..<n]"
proof (induction n)
  case 0
  then show ?case by simp
next
  case (Suc n)
  then show ?case by (simp add: array_set_def)
qed

lemma blocks_Suc: "blocks g S (Suc r) = blocks g S r @ map (\<lambda>j. Some (g r j)) [0..<S]"
  by (simp add: blocks_def)

lemma length_blocks: "length (blocks g S r) = r * S"
  by (induction r) (simp_all add: blocks_Suc, simp add: blocks_def)

lemma index_less: "i < r \<Longrightarrow> j < S \<Longrightarrow> i * S + j < r * (S::nat)"
proof -
  assume a: "i < r" "j < S"
  then have "i * S + j < Suc i * S" by simp
  also have "\<dots> \<le> r * S" using a by (intro mult_le_mono1) simp
  finally show ?thesis .
qed

lemma nth_blocks: "i < r \<Longrightarrow> j < S \<Longrightarrow> blocks g S r ! (i * S + j) = Some (g i j)"
proof (induction r)
  case 0
  then show ?case by simp
next
  case (Suc r)
  show ?case
  proof (cases "i < r")
    case True
    then show ?thesis
      using Suc by (simp add: blocks_Suc nth_append length_blocks index_less)
  next
    case False
    then have "i = r" using Suc.prems by simp
    then show ?thesis
      using Suc.prems by (simp add: blocks_Suc nth_append length_blocks)
  qed
qed

lemma outer_fold:
  "fold (\<lambda>i anchors. fold (\<lambda>j anchors. array_set anchors (i * S + j) (g i j)) [0..<S] anchors)
     [0..<r] [] = blocks g S r"
proof (induction r)
  case 0
  then show ?case by (simp add: blocks_def)
next
  case (Suc r)
  then show ?case
    by (simp add: inner_fold [OF length_blocks] blocks_Suc)
qed

lemma generateAnchors_blocks:
  "generateAnchors baseSize ratios scales
     = blocks (\<lambda>i j. anchor_spec baseSize (ratios ! i) (scales ! j)) (length scales) (length ratios)"
  unfolding generateAnchors_def Let_def anchor_spec_def mul_half
  by (rule outer_fold)

text \<open>
  Claim C5. For \<open>R\<close> ratios and \<open>S\<close> scales \<open>generateAnchors\<close> returns an array of
  \<open>R * S\<close> anchors without holes, and the anchor at index \<open>i * S + j\<close> is the box of
  the specification for ratio \<open>i\<close> and scale \<open>j\<close>.
\<close>

theorem generateAnchors_spec:
  "length (generateAnchors baseSize ratios scales) = length ratios * length scales \<and>
   (\<forall>i < length ratios. \<forall>j < length scales.
      generateAnchors baseSize ratios scales ! (i * length scales + j)
        = Some (anchor_spec baseSize (ratios ! i) (scales ! j)))"
  by (simp add: generateAnchors_blocks length_blocks nth_blocks)

theorem generateAnchors_spec_witness:
  "length (generateAnchors (Fin 16) [Fin 1] [Fin 32, Fin 16]) = 2 \<and>
   generateAnchors (Fin 16) [Fin 1] [Fin 32, Fin 16] ! 1
     = Some (Fin (- 120), Fin (- 120), Fin 136, Fin 136)"
proof -
  note th = generateAnchors_spec [of "Fin 16" "[Fin 1]" "[Fin 32, Fin 16]"]
  from th have "generateAnchors (Fin 16) [Fin 1] [Fin 32, Fin 16] ! (0 * 2 + 1)
     = Some (anchor_spec (Fin 16) ([Fin 1] ! 0) ([Fin 32, Fin 16] ! 1))"
    by simp
  moreover have "anchor_spec (Fin 16) (Fin 1) (Fin 16) = (Fin (- 120), Fin (- 120), Fin 136, Fin 136)"
    by (simp add: anchor_spec_def sub_def)
  ultimately show ?thesis using th by simp
qed

lemma generateAnchors_16:
  "generateAnchors (Fin 16) [Fin 1] [s0, s1]
     = [Some (anchor_spec (Fin 16) (Fin 1) s0), Some (anchor_spec (Fin 16) (Fin 1) s1)]"
  by (simp add: generateAnchors_blocks blocks_def numeral_2_eq_2)

section \<open>Proposal decoding: what the loops return\<close>

lemma cell_filter:
  assumes "lt t1 t2"
  shows "cell score bbox landmark t2 offset so bo lo aw ah ax ay index
           (filter (\<lambda>f. ge (prob f) t2) faces)
       = filter (\<lambda>f. ge (prob f) t2)
           (cell score bbox landmark t1 offset so bo lo aw ah ax ay index faces)"
  using ge_trans_lt [OF assms] by (auto simp: cell_def Let_def)

lemma loop_j_filter:
  assumes "lt t1 t2"
  shows "loop_j score bbox landmark t2 offset so bo lo aw ah fs w a0 i ay
           (filter (\<lambda>f. ge (prob f) t2) faces)
       = filter (\<lambda>f. ge (prob f) t2)
           (loop_j score bbox landmark t1 offset so bo lo aw ah fs w a0 i ay faces)"
  unfolding loop_j_def
  by (subst fold_simulation [where h = "map_prod (filter (\<lambda>f. ge (prob f) t2)) id"
        and s = "(faces, a0)"])
     (auto simp: cell_filter [OF assms])

lemma loop_i_filter:
  assumes "lt t1 t2"
  shows "loop_i score bbox landmark t2 offset so bo lo aw ah fs w h a0 a1
           (filter (\<lambda>f. ge (prob f) t2) faces)
       = filter (\<lambda>f. ge (prob f) t2)
           (loop_i score bbox landmark t1 offset so bo lo aw ah fs w h a0 a1 faces)"
  unfolding loop_i_def
  by (subst fold_simulation [where h = "map_prod (filter (\<lambda>f. ge (prob f) t2)) id"
        and s = "(faces, a1)"])
     (auto simp: loop_j_filter [OF assms])

lemma generateProposals_filter:
  assumes "lt t1 t2"
  shows "generateProposals anchors featStride scoreT bboxT landmarkT t2
       = map_sum id (filter (\<lambda>f. ge (prob f) t2))
           (generateProposals anchors featStride scoreT bboxT landmarkT t1)"
  unfolding generateProposals_def Let_def
  by (rule fold_simulation [where h = "map_sum id (filter (\<lambda>f. ge (prob f) t2))"])
     (auto simp: loop_i_filter [OF assms] split: sum.splits option.splits)



lemma rd_ge_in_set: "ge (rd xs k) t \<Longrightarrow> rd xs k \<in> set xs"
  by (auto simp: rd_def ge_def split: if_splits)

lemma rd_Nil: "rd [] k = NaN"
  by (simp add: rd_def)

lemma loop_j_all:
  assumes cell: "\<And>ax ay index faces. \<forall>f\<in>set faces. Q f \<Longrightarrow>
             \<forall>f\<in>set (cell score bbox landmark t offset so bo lo aw ah ax ay index faces). Q f"
    and init: "\<forall>f\<in>set faces. Q f"
  shows "\<forall>f\<in>set (loop_j score bbox landmark t offset so bo lo aw ah fs w a0 i ay faces). Q f"
  unfolding loop_j_def
proof (rule fold_invariant [where I = "\<lambda>s. \<forall>f\<in>set (fst s). Q f"])
  show "\<forall>f\<in>set (fst (faces, a0)). Q f" using init by simp
next
  fix j and s :: "FaceObject list \<times> number"
  assume "\<forall>f\<in>set (fst s). Q f"
  from cell [OF this]
  show "\<forall>f\<in>set (fst (case s of (faces, anchorX) \<Rightarrow>
            (cell score bbox landmark t offset so bo lo aw ah anchorX ay (i * w + j) faces,
             add anchorX fs))). Q f"
    by (simp only: split_beta fst_conv)
qed

lemma loop_i_all:
  assumes cell: "\<And>ax ay index faces. \<forall>f\<in>set faces. Q f \<Longrightarrow>
             \<forall>f\<in>set (cell score bbox landmark t offset so bo lo aw ah ax ay index faces). Q f"
    and init: "\<forall>f\<in>set faces. Q f"
  shows "\<forall>f\<in>set (loop_i score bbox landmark t offset so bo lo aw ah fs w h a0 a1 faces). Q f"
  unfolding loop_i_def
proof (rule fold_invariant [where I = "\<lambda>s. \<forall>f\<in>set (fst s). Q f"])
  show "\<forall>f\<in>set (fst (faces, a1)). Q f" using init by simp
next
  fix i and s :: "FaceObject list \<times> number"
  assume "\<forall>f\<in>set (fst s). Q f"
  from loop_j_all [where Q = Q, OF cell this]
  show "\<forall>f\<in>set (fst (case s of (faces, anchorY) \<Rightarrow>
            (loop_j score bbox landmark t offset so bo lo aw ah fs w a0 i anchorY faces,
             add anchorY fs))). Q f"
    by (simp only: split_beta fst_conv)
qed

lemma generateProposals_all:
  assumes cell: "\<And>so bo lo aw ah ax ay index faces. \<forall>f\<in>set faces. Q f \<Longrightarrow>
             \<forall>f\<in>set (cell (getData scoreT) (getData bboxT) (getData landmarkT) t
                        (dimAt (dims bboxT) 3 * dimAt (dims bboxT) 2)
                        so bo lo aw ah ax ay index faces). Q f"
    and res: "generateProposals anchors featStride scoreT bboxT landmarkT t = Inr fs"
  shows "\<forall>f\<in>set fs. Q f"
proof -
  have "case generateProposals anchors featStride scoreT bboxT landmarkT t of
          Inl e \<Rightarrow> True | Inr fs \<Rightarrow> \<forall>f\<in>set fs. Q f"
    unfolding generateProposals_def Let_def
  proof (rule fold_invariant [where I = "\<lambda>r. case r of Inl e \<Rightarrow> True | Inr fs \<Rightarrow> \<forall>f\<in>set fs. Q f"])
    show "case Inr [] of Inl e \<Rightarrow> True | Inr fs \<Rightarrow> \<forall>f\<in>set fs. Q f" by simp
  next
    fix q and r :: "error + FaceObject list"
    assume r: "case r of Inl e \<Rightarrow> True | Inr fs \<Rightarrow> \<forall>f\<in>set fs. Q f"
    show "case (case r of Inl e \<Rightarrow> Inl e
                | Inr faces \<Rightarrow>
                    (case anchors ! q of None \<Rightarrow> Inl TypeError
                     | Some (a0, a1, a2, a3) \<Rightarrow>
                         Inr (loop_i (getData scoreT) (getData bboxT) (getData landmarkT) t
                           (dimAt (dims bboxT) 3 * dimAt (dims bboxT) 2)
                           ((q + length anchors) * (dimAt (dims bboxT) 3 * dimAt (dims bboxT) 2))
                           (q * 4 * (dimAt (dims bboxT) 3 * dimAt (dims bboxT) 2))
                           (q * 10 * (dimAt (dims bboxT) 3 * dimAt (dims bboxT) 2))
                           (sub a2 a0) (sub a3 a1) featStride (dimAt (dims bboxT) 3)
                           (dimAt (dims bboxT) 2) a0 a1 faces))) of
            Inl e \<Rightarrow> True | Inr fs \<Rightarrow> \<forall>f\<in>set fs. Q f"
    proof (cases r)
      case (Inl e)
      then show ?thesis by simp
    next
      case (Inr faces)
      with r have "\<forall>f\<in>set faces. Q f" by simp
      note loop_i_all [where Q = Q, OF cell this]
      then show ?thesis
        unfolding Inr by (cases "anchors ! q") (simp_all only: sum.case option.case prod.case split: prod.split, blast)
    qed
  qed
  with res show ?thesis by simp
qed

lemma cell_prob:
  assumes "\<forall>f\<in>set faces. prob f \<in> set score \<and> ge (prob f) t"
  shows "\<forall>f\<in>set (cell score bbox landmark t offset so bo lo aw ah ax ay index faces).
           prob f \<in> set score \<and> ge (prob f) t"
  using assms by (auto simp: cell_def Let_def rd_ge_in_set)

lemma cell_rect_NaN:
  assumes "\<forall>f\<in>set faces. rect f = (NaN, NaN, NaN, NaN)"
  shows "\<forall>f\<in>set (cell score [] landmark t offset so bo lo aw ah ax ay index faces).
           rect f = (NaN, NaN, NaN, NaN)"
  using assms by (auto simp: cell_def Let_def rd_Nil)

lemma generateProposals_prob:
  assumes "generateProposals anchors featStride scoreT bboxT landmarkT t = Inr fs"
    and "f \<in> set fs"
  shows "prob f \<in> set (getData scoreT) \<and> ge (prob f) t"
  using generateProposals_all [where Q = "\<lambda>f. prob f \<in> set (getData scoreT) \<and> ge (prob f) t",
      OF cell_prob assms(1)] assms(2) by blast

lemma generateProposals_rect_NaN:
  assumes "generateProposals anchors featStride scoreT bboxT landmarkT t = Inr fs"
    and "getData bboxT = []" and "f \<in> set fs"
  shows "rect f = (NaN, NaN, NaN, NaN)"
  using generateProposals_all [where Q = "\<lambda>f. rect f = (NaN, NaN, NaN, NaN)" and bboxT = bboxT,
      unfolded assms(2), OF cell_rect_NaN] assms by simp

lemma generateProposals_total:
  assumes "None \<notin> set anchors"
  shows "\<exists>fs. generateProposals anchors featStride scoreT bboxT landmarkT t = Inr fs"
  unfolding generateProposals_def Let_def
  by (rule fold_invariant [where I = "\<lambda>r. \<exists>fs. r = Inr fs"])
     (use assms in \<open>auto split: sum.splits option.splits simp: in_set_conv_nth\<close>)

lemmas decode_simps =
  generateProposals_def loop_i_def loop_j_def cell_def rd_def dimAt_def tensor_def ge_def Let_def

text \<open>
  Claim C8. With the same anchors and tensors and thresholds \<open>t1 < t2\<close>, the candidates
  decoded at \<open>t2\<close> are those decoded at \<open>t1\<close> whose probability reaches \<open>t2\<close>: a
  subset, and no more of them.
\<close>

theorem threshold_monotone:
  assumes "lt t1 t2"
    and "generateProposals anchors featStride scoreT bboxT landmarkT t1 = Inr fs1"
  shows "\<exists>fs2. generateProposals anchors featStride scoreT bboxT landmarkT t2 = Inr fs2 \<and>
           fs2 = filter (\<lambda>f. ge (prob f) t2) fs1 \<and>
           set fs2 \<subseteq> set fs1 \<and> length fs2 \<le> length fs1"
  using generateProposals_filter [OF assms(1), of anchors featStride scoreT bboxT landmarkT]
    assms(2) by simp

theorem threshold_monotone_witness:
  "lt (Fin 0.75) (Fin 0.9) \<and>
   (\<exists>f g. generateProposals [Some (Fin 0, Fin 0, Fin 16, Fin 16)] (Fin 16)
      (tensor [1, 2, 1, 2] [0.2, 0.05, 0.8, 0.95]) (tensor [1, 4, 1, 2] [0, 0, 0, 0, 0, 0, 0, 0])
      (tensor [1, 10, 1, 2] []) (Fin 0.75) = Inr [f, g] \<and>
     generateProposals [Some (Fin 0, Fin 0, Fin 16, Fin 16)] (Fin 16)
      (tensor [1, 2, 1, 2] [0.2, 0.05, 0.8, 0.95]) (tensor [1, 4, 1, 2] [0, 0, 0, 0, 0, 0, 0, 0])
      (tensor [1, 10, 1, 2] []) (Fin 0.9) = Inr [g])"
proof -
  have t: "lt (Fin 0.75) (Fin 0.9)" by simp
  obtain f g where fg: "generateProposals [Some (Fin 0, Fin 0, Fin 16, Fin 16)] (Fin 16)
      (tensor [1, 2, 1, 2] [0.2, 0.05, 0.8, 0.95]) (tensor [1, 4, 1, 2] [0, 0, 0, 0, 0, 0, 0, 0])
      (tensor [1, 10, 1, 2] []) (Fin 0.75) = Inr [f, g]"
    and p: "prob f = Fin 0.8" "prob g = Fin 0.95"
    by (simp add: decode_simps numeral_eq_Suc)
  from threshold_monotone [OF t fg] p show ?thesis
    using t fg by (simp add: ge_def)
qed

text \<open>
  Claim C3, as amended. The decoder never compares a buffer's length with the expected
  one and never fails because of it: for an anchor array without holes it returns a
  candidate list whatever the lengths are. A score read beyond the end of its buffer
  rejects the cell, so every candidate's probability is an entry of the score buffer; a
  bounding-box read beyond the end is NaN, so with an empty bounding-box buffer every
  candidate has the rectangle (NaN, NaN, NaN, NaN).
\<close>

theorem generateProposals_no_length_check:
  assumes "None \<notin> set anchors"
  shows "\<exists>fs. generateProposals anchors featStride scoreT bboxT landmarkT t = Inr fs \<and>
           (\<forall>f\<in>set fs. prob f \<in> set (getData scoreT)) \<and>
           (getData bboxT = [] \<longrightarrow> (\<forall>f\<in>set fs. rect f = (NaN, NaN, NaN, NaN)))"
proof -
  from generateProposals_total [OF assms] obtain fs
    where fs: "generateProposals anchors featStride scoreT bboxT landmarkT t = Inr fs" by blast
  then show ?thesis
    using generateProposals_prob [OF fs] generateProposals_rect_NaN [OF fs] by blast
qed

theorem generateProposals_no_length_check_witness:
  "None \<notin> set [Some (Fin 0, Fin 0, Fin 16, Fin 16)] \<and>
   (\<exists>fs. generateProposals [Some (Fin 0, Fin 0, Fin 16, Fin 16)] (Fin 16)
     (tensor [1, 2, 1, 1] [0.1, 0.9]) (tensor [1, 4, 1, 1] []) (tensor [1, 10, 1, 1] [])
     (Fin 0.75) = Inr fs \<and> (\<forall>f\<in>set fs. rect f = (NaN, NaN, NaN, NaN)))"
proof -
  have a: "None \<notin> set [Some (Fin 0, Fin 0, Fin 16, Fin 16)]" by simp
  have b: "getData (tensor [1, 4, 1, 1] []) = []" by (simp add: tensor_def)
  from generateProposals_no_length_check [OF a, of "Fin 16" "tensor [1, 2, 1, 1] [0.1, 0.9]"
      "tensor [1, 4, 1, 1] []" "tensor [1, 10, 1, 1] []" "Fin 0.75"] a b
  show ?thesis by blast
qed

text \<open>
  Claim C3 as stated fails: with one anchor on a 1 x 1 grid, a face score 0.9 and empty
  bounding-box and landmark buffers (4 and 10 entries are expected), the decoder returns
  a candidate made of NaN instead of failing.
\<close>

theorem generateProposals_no_length_check_counterexample:
  "generateProposals [Some (Fin 0, Fin 0, Fin 16, Fin 16)] (Fin 16)
     (tensor [1, 2, 1, 1] [0.1, 0.9]) (tensor [1, 4, 1, 1] []) (tensor [1, 10, 1, 1] [])
     (Fin 0.75)
   = Inr [\<lparr>rect = (NaN, NaN, NaN, NaN),
           landmarks = [(NaN, NaN), (NaN, NaN), (NaN, NaN), (NaN, NaN), (NaN, NaN)],
           prob = Fin 0.9\<rparr>]"
  by (simp add: decode_simps)

text \<open>
  Claim C6. One anchor (0, 0, 16, 16), stride 16, a 1 x 1 grid, the face score 0.9 at or
  above the threshold and the deltas (0, 0, 0, 0): the decoder returns exactly one
  candidate, with the rectangle (0, 0, 16, 16), the anchor unchanged. Its centre is
  (8, 8): that is where landmark deltas of zero put all five landmarks.
\<close>

theorem decode_exact:
  assumes "ge (Fin 0.9) t"
  shows "\<exists>f. generateProposals [Some (Fin 0, Fin 0, Fin 16, Fin 16)] (Fin 16)
            \<lparr>dims = [1, 2, 1, 1], getData = [s0, Fin 0.9]\<rparr>
            (tensor [1, 4, 1, 1] [0, 0, 0, 0]) landmarkT t = Inr [f] \<and>
          rect f = (Fin 0, Fin 0, Fin 16, Fin 16) \<and> prob f = Fin 0.9 \<and>
          (getData landmarkT = replicate 10 (Fin 0) \<longrightarrow>
             landmarks f = replicate 5 (Fin 8, Fin 8))"
  using assms by (simp add: decode_simps numeral_eq_Suc)

theorem decode_exact_witness:
  "ge (Fin 0.9) (Fin 0.75) \<and>
   generateProposals [Some (Fin 0, Fin 0, Fin 16, Fin 16)] (Fin 16)
     (tensor [1, 2, 1, 1] [0.1, 0.9]) (tensor [1, 4, 1, 1] [0, 0, 0, 0])
     (tensor [1, 10, 1, 1] [0, 0, 0, 0, 0, 0, 0, 0, 0, 0]) (Fin 0.75)
   = Inr [\<lparr>rect = (Fin 0, Fin 0, Fin 16, Fin 16),
           landmarks = [(Fin 8, Fin 8), (Fin 8, Fin 8), (Fin 8, Fin 8), (Fin 8, Fin 8), (Fin 8, Fin 8)],
           prob = Fin 0.9\<rparr>]"
proof -
  have t: "ge (Fin 0.9) (Fin 0.75)" by (simp add: ge_def)
  have l: "getData (tensor [1, 10, 1, 1] [0, 0, 0, 0, 0, 0, 0, 0, 0, 0]) = replicate 10 (Fin 0)"
    by (simp add: tensor_def numeral_eq_Suc)
  from decode_exact [OF t, of "Fin 0.1" "tensor [1, 10, 1, 1] [0, 0, 0, 0, 0, 0, 0, 0, 0, 0]"] l
  obtain f where "generateProposals [Some (Fin 0, Fin 0, Fin 16, Fin 16)] (Fin 16)
            \<lparr>dims = [1, 2, 1, 1], getData = [Fin 0.1, Fin 0.9]\<rparr>
            (tensor [1, 4, 1, 1] [0, 0, 0, 0])
            (tensor [1, 10, 1, 1] [0, 0, 0, 0, 0, 0, 0, 0, 0, 0]) (Fin 0.75) = Inr [f]"
     "rect f = (Fin 0, Fin 0, Fin 16, Fin 16)" "prob f = Fin 0.9"
     "landmarks f = replicate 5 (Fin 8, Fin 8)" by blast
  then show ?thesis using t by (cases f) (simp add: tensor_def numeral_eq_Suc)
qed

section \<open>Detection: rescaling, the precondition, the probabilities\<close>

lemma clamp_code:
  assumes "0 \<le> hi"
  shows "Math_max (Math_min x (Fin hi)) (Fin 0) = clamp x (Fin 0) (Fin hi)"
  using assms by (cases x) (auto simp: clamp_def Math_min_def Math_max_def gt_def)

lemma clamp_inside: "le lo x \<Longrightarrow> le x hi \<Longrightarrow> clamp x lo hi = x"
  by (cases x; cases lo; cases hi) (auto simp: clamp_def gt_def)

lemma map_quot_one: "map (\<lambda>landmark. (quot (fst landmark) (Fin 1), quot (snd landmark) (Fin 1))) ls = ls"
  by (induction ls) auto

text \<open>
  Claim C7. The rescale step runs only when the network's width and height equal those
  of the pixel buffer, which are positive. For such a network it maps every
  coordinate of the rectangle to its clamp to \<open>[0, dimension - 1]\<close> divided by the scale,
  divides every landmark coordinate by the scale without clamping, and keeps the
  probability. With scale 1 and a rectangle inside \<open>[0, width - 1] x [0, height - 1]\<close> it
  returns the candidate as it is.
\<close>

theorem rescale_spec:
  assumes "0 < w" and "0 < h" and "rect obj = (r0, r1, r2, r3)"
  shows "rect (rescale w h scale obj)
           = (quot (clamp r0 (Fin 0) (Fin (real w - 1))) scale,
              quot (clamp r1 (Fin 0) (Fin (real h - 1))) scale,
              quot (clamp r2 (Fin 0) (Fin (real w - 1))) scale,
              quot (clamp r3 (Fin 0) (Fin (real h - 1))) scale)
       \<and> landmarks (rescale w h scale obj)
           = map (\<lambda>(x, y). (quot x scale, quot y scale)) (landmarks obj)
       \<and> prob (rescale w h scale obj) = prob obj
       \<and> (scale = Fin 1 \<and>
          le (Fin 0) r0 \<and> le r0 (Fin (real w - 1)) \<and> le (Fin 0) r1 \<and> le r1 (Fin (real h - 1)) \<and>
          le (Fin 0) r2 \<and> le r2 (Fin (real w - 1)) \<and> le (Fin 0) r3 \<and> le r3 (Fin (real h - 1))
          \<longrightarrow> rescale w h scale obj = obj)"
proof -
  have w: "0 \<le> real w - 1" and h: "0 \<le> real h - 1" using assms(1,2) by simp_all
  have r: "rescale w h s obj
        = \<lparr>rect = (quot (clamp r0 (Fin 0) (Fin (real w - 1))) s,
                    quot (clamp r1 (Fin 0) (Fin (real h - 1))) s,
                    quot (clamp r2 (Fin 0) (Fin (real w - 1))) s,
                    quot (clamp r3 (Fin 0) (Fin (real h - 1))) s),
           landmarks = map (\<lambda>landmark. (quot (fst landmark) s, quot (snd landmark) s))
                         (landmarks obj),
           prob = prob obj\<rparr>" for s
    by (simp add: rescale_def assms(3) Let_def clamp_code [OF w] clamp_code [OF h])
  have o: "\<lparr>rect = (r0, r1, r2, r3), landmarks = landmarks obj, prob = prob obj\<rparr> = obj"
    using assms(3) by (cases obj) simp
  show ?thesis
    by (auto simp: r clamp_inside map_quot_one split_beta o)
qed


theorem rescale_spec_witness:
  "rect (rescale 512 512 (Fin 2)
      \<lparr>rect = (Fin (- 5), Fin 20, Fin 600, Fin 40), landmarks = [(Fin 700, Fin (- 3))],
        prob = Fin 0.9\<rparr>) = (Fin 0, Fin 10, Fin 255.5, Fin 20) \<and>
   landmarks (rescale 512 512 (Fin 2)
      \<lparr>rect = (Fin (- 5), Fin 20, Fin 600, Fin 40), landmarks = [(Fin 700, Fin (- 3))],
        prob = Fin 0.9\<rparr>) = [(Fin 350, Fin (- 1.5))] \<and>
   rescale 512 512 (Fin 1) (face 10 20 30 40) = face 10 20 30 40"
proof -
  have p: "(0::nat) < 512" by simp
  have r1: "rect \<lparr>rect = (Fin (- 5), Fin 20, Fin 600, Fin 40), landmarks = [(Fin 700, Fin (- 3))],
        prob = Fin 0.9\<rparr> = (Fin (- 5), Fin 20, Fin 600, Fin 40)" by simp
  have r2: "rect (face 10 20 30 40) = (Fin 10, Fin 20, Fin 30, Fin 40)" by (simp add: face_def)
  from rescale_spec [OF p p r1, of "Fin 2"] rescale_spec [OF p p r2, of "Fin 1"]
  show ?thesis by (simp add: clamp_def gt_def)
qed

lemma generateProposals_error:
  "generateProposals anchors featStride scoreT bboxT landmarkT t = Inl e \<Longrightarrow> e = TypeError"
proof -
  have "case generateProposals anchors featStride scoreT bboxT landmarkT t of
          Inl e \<Rightarrow> e = TypeError | Inr fs \<Rightarrow> True"
    unfolding generateProposals_def Let_def
    by (rule fold_invariant [where I = "\<lambda>r. case r of Inl e \<Rightarrow> e = TypeError | Inr fs \<Rightarrow> True"])
       (simp_all split: sum.splits option.splits)
  then show "generateProposals anchors featStride scoreT bboxT landmarkT t = Inl e \<Longrightarrow> e = TypeError"
    by simp
qed

lemma processStride_error:
  "processStride res fp t stride scales = Inl e \<Longrightarrow> e = TypeError"
  by (auto simp: processStride_def Let_def split: option.splits sum.splits
      dest: generateProposals_error)

lemma processStride_prob:
  assumes "processStride res fp t stride scales = Inr fp'" and "f \<in> set fp'"
  shows "f \<in> set fp \<or>
         (\<exists>scoreT. res (''face_rpn_cls_prob_reshape_stride'' @ show_nat stride) = Some scoreT \<and>
            prob f \<in> set (getData scoreT) \<and> ge (prob f) t)"
  using assms
  by (auto simp: processStride_def Let_def split: option.splits sum.splits
      dest: generateProposals_prob)

lemma set_insert_by: "set (insert_by cmp x ys) = insert x (set ys)"
  by (induction ys) auto

lemma set_Array_sort: "set (Array_sort cmp xs) = set xs"
  by (induction xs) (auto simp: set_insert_by)

lemma prob_rescale: "prob (rescale w h scale obj) = prob obj"
  by (simp add: rescale_def Let_def split: prod.splits)

lemma nms_bound: "i \<in> set (nmsSortedBboxes fs thr) \<Longrightarrow> i < length fs"
  by (simp add: nms_picked_upto picked_upto_bound)

text \<open>
  Claim C4. \<open>detect\<close> throws its \<open>Error\<close> exactly when the width or the height of the
  pixel buffer differs from the network's. Then the result is that error with its message
  and the inference engine has not been called; no other part of the input is looked at.
\<close>

theorem detect_precondition:
  "((\<exists>msg. fst (detect this imageData scale probThreshold nmsThreshold) = Inl (Error msg))
      \<longleftrightarrow> (width imageData \<noteq> this_width this \<or> height imageData \<noteq> this_height this))
   \<and> (width imageData \<noteq> this_width this \<or> height imageData \<noteq> this_height this \<longrightarrow>
        detect this imageData scale probThreshold nmsThreshold
          = (Inl (Error (''image should be '' @ show_nat (this_width this) @ ''x''
                           @ show_nat (this_height this))), []))"
  by (auto simp: detect_def Let_def split: sum.splits dest: processStride_error)

theorem detect_precondition_witness:
  "detect \<lparr>session = (\<lambda>input. Inl ''unused''), this_width = 512, this_height = 512\<rparr>
     \<lparr>width = 2, height = 1, data = [255, 0, 0, 255, 0, 255, 0, 255]\<rparr>
     (Fin 1) (Fin 0.75) (Fin 0.5)
   = (Inl (Error ''image should be 512x512''), [])"
proof -
  have m: "width \<lparr>width = 2, height = 1, data = [255, 0, 0, 255, 0, 255, 0, 255]\<rparr>
             \<noteq> this_width \<lparr>session = (\<lambda>input. Inl ''unused''), this_width = 512, this_height = 512\<rparr>
         \<or> height \<lparr>width = 2, height = 1, data = [255, 0, 0, 255, 0, 255, 0, 255]\<rparr>
             \<noteq> this_height \<lparr>session = (\<lambda>input. Inl ''unused''), this_width = 512, this_height = 512\<rparr>"
    by simp
  have s: "show_nat 512 = ''512''" by (simp add: show_nat.simps)
  from detect_precondition [of "\<lparr>session = (\<lambda>input. Inl ''unused''), this_width = 512, this_height = 512\<rparr>"
      "\<lparr>width = 2, height = 1, data = [255, 0, 0, 255, 0, 255, 0, 255]\<rparr>" "Fin 1" "Fin 0.75" "Fin 0.5"] m
  show ?thesis by (simp add: s)
qed


lemma score_values_mem:
  assumes "res (''face_rpn_cls_prob_reshape_stride'' @ show_nat stride) = Some scoreT"
    and "stride \<in> {32, 16, 8}" and "x \<in> set (getData scoreT)"
  shows "x \<in> set (score_values res)"
  using assms by (auto simp: score_values_def)

lemma detect_Inr:
  assumes "detect this imageData scale probThreshold nmsThreshold = (Inr faces, calls)"
  obtains res fp32 fp16 fp8 where
    "calls = [\<lparr>dims = [1, 3, this_height this, this_width this],
              getData = nchw (this_width this) (this_height this) imageData\<rparr>]"
    "session this \<lparr>dims = [1, 3, this_height this, this_width this],
              getData = nchw (this_width this) (this_height this) imageData\<rparr> = Inr res"
    "processStride res [] probThreshold 32 [Fin 32, Fin 16] = Inr fp32"
    "processStride res fp32 probThreshold 16 [Fin 8, Fin 4] = Inr fp16"
    "processStride res fp16 probThreshold 8 [Fin 2, Fin 1] = Inr fp8"
    "faces = map (\<lambda>i. rescale (this_width this) (this_height this) scale
                     (Array_sort (\<lambda>a b. sub (prob b) (prob a)) fp8 ! i))
               (nmsSortedBboxes (Array_sort (\<lambda>a b. sub (prob b) (prob a)) fp8) nmsThreshold)"
  using assms by (auto simp: detect_def Let_def split: if_splits sum.splits)

text \<open>
  Claim C2, as amended. When \<open>detect\<close> returns a list, the probability of every
  candidate in it is at least \<open>probThreshold\<close>, and it is one of the scores that the
  engine returned for this input. So it is at most 1 when no score of the engine is
  greater than 1.
\<close>

theorem detect_prob:
  assumes "detect this imageData scale probThreshold nmsThreshold = (Inr faces, calls)"
    and "f \<in> set faces"
  shows "ge (prob f) probThreshold \<and>
         (\<exists>input res. calls = [input] \<and> session this input = Inr res \<and>
            prob f \<in> set (score_values res) \<and>
            ((\<forall>x\<in>set (score_values res). le x (Fin 1)) \<longrightarrow> le (prob f) (Fin 1)))"
proof -
  from assms(1) obtain res fp32 fp16 fp8 where
    calls: "calls = [\<lparr>dims = [1, 3, this_height this, this_width this],
              getData = nchw (this_width this) (this_height this) imageData\<rparr>]"
    and res: "session this \<lparr>dims = [1, 3, this_height this, this_width this],
              getData = nchw (this_width this) (this_height this) imageData\<rparr> = Inr res"
    and p32: "processStride res [] probThreshold 32 [Fin 32, Fin 16] = Inr fp32"
    and p16: "processStride res fp32 probThreshold 16 [Fin 8, Fin 4] = Inr fp16"
    and p8: "processStride res fp16 probThreshold 8 [Fin 2, Fin 1] = Inr fp8"
    and faces: "faces = map (\<lambda>i. rescale (this_width this) (this_height this) scale
                     (Array_sort (\<lambda>a b. sub (prob b) (prob a)) fp8 ! i))
               (nmsSortedBboxes (Array_sort (\<lambda>a b. sub (prob b) (prob a)) fp8) nmsThreshold)"
    by (rule detect_Inr)
  define srt where "srt = Array_sort (\<lambda>a b. sub (prob b) (prob a)) fp8"
  from assms(2) faces obtain i where i: "i \<in> set (nmsSortedBboxes srt nmsThreshold)"
    and f: "f = rescale (this_width this) (this_height this) scale (srt ! i)"
    by (auto simp: srt_def)
  from i have "i < length srt" by (rule nms_bound)
  then have "srt ! i \<in> set fp8" unfolding srt_def
    using set_Array_sort nth_mem by metis
  moreover define g where "g = srt ! i"
  ultimately have g: "g \<in> set fp8" by simp
  have pf: "prob f = prob g" by (simp add: f g_def prob_rescale)
  have "ge (prob g) probThreshold \<and> prob g \<in> set (score_values res)"
  proof -
    from processStride_prob [OF p8 g] consider
      (a) "g \<in> set fp16"
      | (b) scoreT where "res (''face_rpn_cls_prob_reshape_stride'' @ show_nat 8) = Some scoreT"
          "prob g \<in> set (getData scoreT)" "ge (prob g) probThreshold" by blast
    then show ?thesis
    proof cases
      case a
      from processStride_prob [OF p16 a] consider
        (c) "g \<in> set fp32"
        | (d) scoreT where "res (''face_rpn_cls_prob_reshape_stride'' @ show_nat 16) = Some scoreT"
            "prob g \<in> set (getData scoreT)" "ge (prob g) probThreshold" by blast
      then show ?thesis
      proof cases
        case c
        from processStride_prob [OF p32 c] obtain scoreT
          where "res (''face_rpn_cls_prob_reshape_stride'' @ show_nat 32) = Some scoreT"
            "prob g \<in> set (getData scoreT)" "ge (prob g) probThreshold" by auto
        then show ?thesis using score_values_mem [of res 32] by simp
      next
        case d
        then show ?thesis using score_values_mem [of res 16] by simp
      qed
    next
      case b
      then show ?thesis using score_values_mem [of res 8] by simp
    qed
  qed
  with calls res pf show ?thesis by auto
qed


lemma generateProposals_none:
  assumes "None \<notin> set anchors" and "\<forall>x\<in>set (getData scoreT). \<not> ge x t"
  shows "generateProposals anchors featStride scoreT bboxT landmarkT t = Inr []"
proof -
  from generateProposals_total [OF assms(1)] obtain fs
    where fs: "generateProposals anchors featStride scoreT bboxT landmarkT t = Inr fs" by blast
  have "fs = []"
  proof (cases fs)
    case Nil
    then show ?thesis .
  next
    case (Cons f fs')
    then have "f \<in> set fs" by simp
    from generateProposals_prob [OF fs this] assms(2) show ?thesis by blast
  qed
  with fs show ?thesis by simp
qed

lemma show_nat_strides: "show_nat 32 = ''32''" "show_nat 16 = ''16''" "show_nat 8 = ''8''"
  by (simp_all add: show_nat.simps)

lemma blank_image_size: "width (blank_image w h) = w" "height (blank_image w h) = h"
  by (simp_all add: blank_image_def)

lemma processStride_zeros:
  assumes "res (''face_rpn_cls_prob_reshape_stride'' @ show_nat stride) = Some (zeros ds n)"
    and "res (''face_rpn_bbox_pred_stride'' @ show_nat stride) = Some bboxT"
    and "res (''face_rpn_landmark_pred_stride'' @ show_nat stride) = Some landmarkT"
    and "\<not> ge (Fin 0) t"
  shows "processStride res fp t stride [s0, s1] = Inr fp"
proof -
  have "generateProposals (generateAnchors (Fin 16) [Fin 1] [s0, s1]) (Fin (real stride))
          (zeros ds n) bboxT landmarkT t = Inr []"
    by (rule generateProposals_none) (use assms(4) in \<open>auto simp: generateAnchors_16 zeros_def\<close>)
  then show ?thesis
    using assms(1-3) by (simp add: processStride_def)
qed

lemma anchor_32: "anchor_spec (Fin 16) (Fin 1) (Fin 32) = (Fin (- 248), Fin (- 248), Fin 264, Fin 264)"
  by (simp add: anchor_spec_def)

lemma anchor_16: "anchor_spec (Fin 16) (Fin 1) (Fin 16) = (Fin (- 120), Fin (- 120), Fin 136, Fin 136)"
  by (simp add: anchor_spec_def)

lemma processStride_32:
  assumes "ge (Fin p) t" and "\<not> ge (Fin 0) t"
  shows "processStride (outputs p) [] t 32 [Fin 32, Fin 16]
       = Inr [\<lparr>rect = (Fin (- 248), Fin (- 248), Fin 264, Fin 264),
                landmarks = replicate 5 (Fin 8, Fin 8), prob = Fin p\<rparr>]"
  using assms
  apply (simp add: processStride_def outputs_def show_nat_strides generateAnchors_16 anchor_32 anchor_16)
  apply (simp add: decode_simps zeros_def numeral_eq_Suc)
  done

lemma nms_single: "nmsSortedBboxes [a] thr = [0]"
  by (simp add: nms_picked_upto picked_upto_def)

lemma detect_net32:
  assumes "ge (Fin p) t" and "\<not> ge (Fin 0) t"
  shows "fst (detect (net32 p) (blank_image 32 32) (Fin 1) t thr)
       = Inr [\<lparr>rect = (Fin 0, Fin 0, Fin 31, Fin 31),
                landmarks = replicate 5 (Fin 8, Fin 8), prob = Fin p\<rparr>]"
proof -
  let ?f = "\<lparr>rect = (Fin (- 248), Fin (- 248), Fin 264, Fin 264),
                landmarks = replicate 5 (Fin 8, Fin 8), prob = Fin p\<rparr>"
  have p32: "processStride (outputs p) [] t 32 [Fin 32, Fin 16] = Inr [?f]"
    using assms by (rule processStride_32)
  have p16: "processStride (outputs p) [?f] t 16 [Fin 8, Fin 4] = Inr [?f]"
    by (rule processStride_zeros [where ds = "[1, 4, 2, 2]" and n = 16])
       (simp_all add: outputs_def show_nat_strides assms(2))
  have p8: "processStride (outputs p) [?f] t 8 [Fin 2, Fin 1] = Inr [?f]"
    by (rule processStride_zeros [where ds = "[1, 4, 4, 4]" and n = 64])
       (simp_all add: outputs_def show_nat_strides assms(2))
  have r: "rescale 32 32 (Fin 1) ?f
         = \<lparr>rect = (Fin 0, Fin 0, Fin 31, Fin 31),
             landmarks = replicate 5 (Fin 8, Fin 8), prob = Fin p\<rparr>"
    by (simp add: rescale_def)
  show ?thesis
    unfolding detect_def net32_def
    by (simp only: blank_image_size Retinaface.simps Let_def engine_def p32 p16 p8 sum.case
        Array_sort.simps insert_by.simps nms_single list.map nth_Cons_0 r fst_conv
        simp_thms if_False)
qed

text \<open>
  Claim C2 as stated fails: \<open>detect\<close> does not bound the scores of the engine. For an
  engine that returns the face score 2, \<open>detect\<close> returns a candidate of probability 2.
\<close>

theorem detect_prob_counterexample:
  "\<exists>f. fst (detect (net32 2) (blank_image 32 32) (Fin 1) (Fin 0.75) (Fin 0.5)) = Inr [f] \<and>
       prob f = Fin 2 \<and> \<not> le (prob f) (Fin 1)"
  by (simp add: detect_net32 ge_def)

theorem detect_prob_witness:
  "\<exists>f calls. detect (net32 0.9) (blank_image 32 32) (Fin 1) (Fin 0.75) (Fin 0.5) = (Inr [f], calls) \<and>
       prob f = Fin 0.9 \<and> ge (prob f) (Fin 0.75) \<and> le (prob f) (Fin 1)"
proof -
  obtain r calls where d: "detect (net32 0.9) (blank_image 32 32) (Fin 1) (Fin 0.75) (Fin 0.5) = (r, calls)"
    by (cases "detect (net32 0.9) (blank_image 32 32) (Fin 1) (Fin 0.75) (Fin 0.5)")
  have "fst (detect (net32 0.9) (blank_image 32 32) (Fin 1) (Fin 0.75) (Fin 0.5))
       = Inr [\<lparr>rect = (Fin 0, Fin 0, Fin 31, Fin 31),
                landmarks = replicate 5 (Fin 8, Fin 8), prob = Fin 0.9\<rparr>]"
    by (rule detect_net32) (simp_all add: ge_def)
  with d have d': "detect (net32 0.9) (blank_image 32 32) (Fin 1) (Fin 0.75) (Fin 0.5)
       = (Inr [\<lparr>rect = (Fin 0, Fin 0, Fin 31, Fin 31),
                landmarks = replicate 5 (Fin 8, Fin 8), prob = Fin 0.9\<rparr>], calls)" by simp
  have s: "\<forall>x\<in>set (score_values (outputs 0.9)). le x (Fin 1)"
    by (simp add: score_values_def outputs_def show_nat_strides tensor_def zeros_def)
  from detect_prob [OF d', of "\<lparr>rect = (Fin 0, Fin 0, Fin 31, Fin 31),
                landmarks = replicate 5 (Fin 8, Fin 8), prob = Fin 0.9\<rparr>"] s
  have "ge (Fin 0.9) (Fin 0.75) \<and> le (Fin 0.9) (Fin 1)"
    by (auto simp: net32_def engine_def)
  with d' show ?thesis by auto
qed

end
